theory Spec2Isabelle
  imports Complex_Main "HOL-Library.Word"
begin

section \<open>Machine types and the build\<close>

text \<open>
  The adapter of \<^verbatim>\<open>spixels-pixel-push.cc\<close> is C++. Its integers are modelled as
  words: \<^verbatim>\<open>uint8_t\<close>, \<^verbatim>\<open>uint16_t\<close> and \<^verbatim>\<open>uint32_t\<close> as words of that width read
  with \<open>unat\<close>, \<^verbatim>\<open>int\<close> as a 32-bit word read with \<open>sint\<close>, \<^verbatim>\<open>size_t\<close> as
  \<open>nat\<close> (it is only compared with 1, 3 and 4).
\<close>

type_synonym u8 = "8 word"
type_synonym u16 = "16 word"
type_synonym u32 = "32 word"
type_synonym cint = "32 word"

text \<open>
  What the source leaves to the compiler and to the header \<^verbatim>\<open>pp-server.h\<close>, which is not
  among the sources, is a parameter of the model: whether plain \<^verbatim>\<open>char\<close> is signed
  (the command buffer is a \<^verbatim>\<open>const char *\<close>), and the values of the two command tags
  that \<^verbatim>\<open>HandlePusherCommand\<close> switches on.
\<close>

record build =
  char_is_signed :: bool
  PPPusherCommandGlobalBrightness :: int
  PPPusherCommandStripBrightness :: int

text \<open>The value of a \<^verbatim>\<open>char\<close> after integral promotion to \<^verbatim>\<open>int\<close>.\<close>

definition char_to_int :: "build \<Rightarrow> u8 \<Rightarrow> int" where
  "char_to_int b c = (if char_is_signed b then sint c else uint c)"

text \<open>\<^verbatim>\<open>uint32_t const strip = buf[1]\<close>: the promoted value, converted modulo \<open>2^32\<close>.\<close>

definition char_to_u32 :: "build \<Rightarrow> u8 \<Rightarrow> u32" where
  "char_to_u32 b c = word_of_int (char_to_int b c)"

text \<open>
  \<^verbatim>\<open>*(uint16_t*)(buf + k)\<close>: the two bytes at \<open>k\<close> and \<open>k + 1\<close> of the buffer's memory
  in the byte order of the little-endian hosts the program is built for; the bytes of
  memory are unsigned whatever the signedness of \<^verbatim>\<open>char\<close>.
\<close>

definition load_u16 :: "u8 \<Rightarrow> u8 \<Rightarrow> u16" where
  "load_u16 lo hi = word_of_nat (unat lo + 256 * unat hi)"

text \<open>\<^verbatim>\<open>(uint32_t)*(uint16_t*)(buf + k) + 1\<close>, in 32-bit unsigned arithmetic.\<close>

definition brightnessScale16 :: "u8 \<Rightarrow> u8 \<Rightarrow> u32" where
  "brightnessScale16 lo hi = ucast (load_u16 lo hi) + 1"

text \<open>
  \<^verbatim>\<open>brightnessScale16 / 65536.0f\<close>. The operand is an integer in \<open>1..65536\<close>, which a
  binary32 float holds exactly, and the divisor is a power of two, so the float division
  does not round (lemma \<open>scale_is_binary32\<close> below): the float is the real number.
\<close>

definition scale_of :: "u32 \<Rightarrow> real" where
  "scale_of x = real (unat x) / 65536"

text \<open>A real number that a binary32 float represents (normal or subnormal).\<close>

definition is_binary32 :: "real \<Rightarrow> bool" where
  "is_binary32 x = (\<exists>m e. \<bar>m\<bar> < 2 ^ 24 \<and> - 149 \<le> e \<and> e \<le> 104 \<and> x = real_of_int m * 2 powr real_of_int e)"

section \<open>Reading the command buffer\<close>

datatype error = bad_array_new_length | out_of_bounds nat

text \<open>
  The buffer is the list of the bytes the caller owns. A read at an offset outside of it
  is undefined behaviour in the source and the error \<open>out_of_bounds\<close> here.
\<close>

definition read_byte :: "u8 list \<Rightarrow> nat \<Rightarrow> error + u8" where
  "read_byte buf i = (if i < length buf then Inr (buf ! i) else Inl (out_of_bounds i))"

section \<open>The drivers\<close>

text \<open>
  The strip driver (\<^verbatim>\<open>spixels::LEDStrip\<close>) and the bus controller
  (\<^verbatim>\<open>spixels::MultiSPI\<close>) belong to the spixels library. The adapter only calls them, so
  each driver is modelled by what it was created with and by the calls it has received,
  oldest first. What a driver holds or transmits at some moment is a function of these.
\<close>

datatype chip = APA102 | LPD6803

datatype strip_call = SetBrightnessScale real | SetPixel8 u32 u8 u8 u8

record LEDStrip =
  chip :: chip
  strip_spi :: nat
  connector :: int
  count :: cint
  calls :: "strip_call list"

definition LEDStrip_SetBrightnessScale :: "real \<Rightarrow> LEDStrip \<Rightarrow> LEDStrip" where
  "LEDStrip_SetBrightnessScale scale s = s\<lparr>calls := calls s @ [SetBrightnessScale scale]\<rparr>"

definition LEDStrip_SetPixel8 :: "u32 \<Rightarrow> u8 \<Rightarrow> u8 \<Rightarrow> u8 \<Rightarrow> LEDStrip \<Rightarrow> LEDStrip" where
  "LEDStrip_SetPixel8 pos r g bl s = s\<lparr>calls := calls s @ [SetPixel8 pos r g bl]\<rparr>"

text \<open>The brightness scale a strip was last given, if any.\<close>

fun last_scale :: "strip_call list \<Rightarrow> real option" where
  "last_scale [] = None"
| "last_scale (c # cs) =
     (case last_scale cs of
        Some x \<Rightarrow> Some x
      | None \<Rightarrow> (case c of SetBrightnessScale x \<Rightarrow> Some x | SetPixel8 p r g bl \<Rightarrow> None))"

definition brightness_scale :: "LEDStrip \<Rightarrow> real option" where
  "brightness_scale s = last_scale (calls s)"

text \<open>The pixel writes a strip has received: its pixel buffer is a function of them.\<close>

fun is_SetPixel8 :: "strip_call \<Rightarrow> bool" where
  "is_SetPixel8 (SetPixel8 p r g bl) = True"
| "is_SetPixel8 (SetBrightnessScale x) = False"

definition pixel_writes :: "LEDStrip \<Rightarrow> strip_call list" where
  "pixel_writes s = filter is_SetPixel8 (calls s)"

text \<open>
  The bus controller: its address (the pointer \<^verbatim>\<open>CreateDirectMultiSPI\<close> returned), its
  clock, and one entry per \<^verbatim>\<open>SendBuffers\<close> call it received: the calls that the
  drivers of its lanes had received when it was called, which is all that the
  transmission can depend on.
\<close>

record MultiSPI =
  spi_addr :: nat
  clock_mhz :: int
  sent :: "strip_call list list list"

definition CreateDirectMultiSPI :: "nat \<Rightarrow> int \<Rightarrow> MultiSPI" where
  "CreateDirectMultiSPI a mhz = \<lparr>spi_addr = a, clock_mhz = mhz, sent = []\<rparr>"

definition lanes_of :: "MultiSPI \<Rightarrow> LEDStrip list \<Rightarrow> LEDStrip list" where
  "lanes_of m strips = filter (\<lambda>s. strip_spi s = spi_addr m) strips"

definition MultiSPI_SendBuffers :: "LEDStrip list \<Rightarrow> MultiSPI \<Rightarrow> MultiSPI" where
  "MultiSPI_SendBuffers strips m = m\<lparr>sent := sent m @ [map calls (lanes_of m strips)]\<rparr>"

section \<open>The adapter\<close>

text \<open>
  The members of \<^verbatim>\<open>APA102SpixelsDevice\<close> and of \<^verbatim>\<open>LPD6803SpixelsDevice\<close>:
  \<^verbatim>\<open>strips_\<close> is the array of strip handles, here the list of the drivers they point
  to, and \<^verbatim>\<open>spi_\<close> the bus controller. A name cannot end in an underscore here, so
  the member \<^verbatim>\<open>x_\<close> of the source is the field \<open>x_m\<close>.
\<close>

record device =
  num_strips_m :: cint
  strip_len_m :: cint
  strips_m :: "LEDStrip list"
  spi_m :: MultiSPI

record PixelColor =
  red :: u8
  green :: u8
  blue :: u8

definition kAPA102ClockMhz :: int where
  "kAPA102ClockMhz = 12"


text \<open>
  \<^verbatim>\<open>CreateAPA102Strip(spi_, SPIPinForConnector(strip + 1), strip_len_)\<close> and its LPD6803
  twin: a new driver on the bus at address \<open>a\<close>, which has received no call yet. The pin
  is kept as the connector number it is looked up from.
\<close>

definition CreateStrip :: "chip \<Rightarrow> nat \<Rightarrow> int \<Rightarrow> cint \<Rightarrow> LEDStrip" where
  "CreateStrip c a conn len =
     \<lparr>chip = c, strip_spi = a, connector = conn, count = len, calls = []\<rparr>"

text \<open>The constructor's loop \<^verbatim>\<open>for (int strip = 0; strip < num_strips_; ++strip)\<close>.\<close>

function create_strips :: "chip \<Rightarrow> nat \<Rightarrow> cint \<Rightarrow> int \<Rightarrow> int \<Rightarrow> LEDStrip list" where
  "create_strips c a len strip n =
     (if strip < n then CreateStrip c a (strip + 1) len # create_strips c a len (strip + 1) n
      else [])"
  by pat_completeness auto
termination
  by (relation "measure (\<lambda>(c, a, len, strip, n). nat (n - strip))") auto

declare create_strips.simps [simp del]

text \<open>
  The constructors. \<^verbatim>\<open>new spixels::LEDStrip* [num_strips_]\<close> with a negative length
  throws \<^verbatim>\<open>std::bad_array_new_length\<close>, and no adapter exists then. \<open>a\<close> is the address
  of the bus controller that \<^verbatim>\<open>CreateDirectMultiSPI\<close> returns.
\<close>

definition SpixelsDevice :: "chip \<Rightarrow> int \<Rightarrow> nat \<Rightarrow> cint \<Rightarrow> cint \<Rightarrow> error + device" where
  "SpixelsDevice c mhz a num_strips strip_len =
     (if sint num_strips < 0 then Inl bad_array_new_length
      else Inr \<lparr>num_strips_m = num_strips, strip_len_m = strip_len,
                strips_m = create_strips c a strip_len 0 (sint num_strips),
                spi_m = CreateDirectMultiSPI a mhz\<rparr>)"

definition APA102SpixelsDevice :: "nat \<Rightarrow> cint \<Rightarrow> cint \<Rightarrow> error + device" where
  "APA102SpixelsDevice a num_strips strip_len =
     SpixelsDevice APA102 kAPA102ClockMhz a num_strips strip_len"


definition num_strips :: "device \<Rightarrow> cint" where
  "num_strips d = num_strips_m d"

definition num_pixel_per_strip :: "device \<Rightarrow> cint" where
  "num_pixel_per_strip d = strip_len_m d"

subsection \<open>HandlePusherCommand\<close>

text \<open>
  The loop of the GlobalBrightness case,
  \<^verbatim>\<open>for (int strip = 0; strip < num_strips_; strip++) strips_[strip]->SetBrightnessScale(..)\<close>.
\<close>

function set_all_brightness :: "real \<Rightarrow> int \<Rightarrow> int \<Rightarrow> LEDStrip list \<Rightarrow> LEDStrip list" where
  "set_all_brightness scale strip n strips =
     (if strip < n
      then set_all_brightness scale (strip + 1) n
             (strips[nat strip := LEDStrip_SetBrightnessScale scale (strips ! nat strip)])
      else strips)"
  by pat_completeness auto
termination
  by (relation "measure (\<lambda>(scale, strip, n, strips). nat (n - strip))") auto

declare set_all_brightness.simps [simp del]

text \<open>The decimal digits that \<^verbatim>\<open>%u\<close> prints.\<close>

fun dec :: "nat \<Rightarrow> string" where
  "dec n = (if n < 10 then [char_of (48 + n)] else dec (n div 10) @ [char_of (48 + n mod 10)])"

declare dec.simps [simp del]

text \<open>
  \<^verbatim>\<open>fprintf(stderr, "HandlePusherCommand() - unknown command:%u\n", buf[0])\<close>: the promoted
  \<^verbatim>\<open>char\<close> is passed as an \<^verbatim>\<open>int\<close> and printed as an \<^verbatim>\<open>unsigned\<close>.
\<close>

definition unknown_command :: "build \<Rightarrow> u8 \<Rightarrow> string" where
  "unknown_command b c =
     ''HandlePusherCommand() - unknown command:''
       @ dec (unat (word_of_int (char_to_int b c) :: u32)) @ [CHR 0x0A]"

text \<open>
  \<^verbatim>\<open>APA102SpixelsDevice::HandlePusherCommand(buf, size)\<close>, with \<open>sz\<close> for the argument
  \<^verbatim>\<open>size\<close>. The result is the adapter after the call together with the text written to
  \<^verbatim>\<open>stderr\<close> during it, or the error of a read outside the buffer. Every \<^verbatim>\<open>buf[i]\<close> of
  the source is one \<open>read_byte\<close> here.
\<close>

definition APA102_HandlePusherCommand ::
    "build \<Rightarrow> device \<Rightarrow> u8 list \<Rightarrow> nat \<Rightarrow> error + device \<times> string" where
  "APA102_HandlePusherCommand b d buf sz =
     (if sz \<ge> 1 then
        (case read_byte buf 0 of
           Inl e \<Rightarrow> Inl e
         | Inr c0 \<Rightarrow>
            if char_to_int b c0 = PPPusherCommandGlobalBrightness b then
              (if sz \<ge> 3 then
                 (case read_byte buf 1 of
                    Inl e \<Rightarrow> Inl e
                  | Inr lo \<Rightarrow>
                     (case read_byte buf 2 of
                        Inl e \<Rightarrow> Inl e
                      | Inr hi \<Rightarrow>
                         Inr (d\<lparr>strips_m :=
                                 set_all_brightness (scale_of (brightnessScale16 lo hi)) 0
                                   (sint (num_strips_m d)) (strips_m d)\<rparr>, [])))
               else Inr (d, []))
            else if char_to_int b c0 = PPPusherCommandStripBrightness b then
              (if sz \<ge> 4 then
                 (case read_byte buf 1 of
                    Inl e \<Rightarrow> Inl e
                  | Inr c1 \<Rightarrow>
                     let strip = char_to_u32 b c1 in
                     if strip < num_strips_m d then
                       (case read_byte buf 2 of
                          Inl e \<Rightarrow> Inl e
                        | Inr lo \<Rightarrow>
                           (case read_byte buf 3 of
                              Inl e \<Rightarrow> Inl e
                            | Inr hi \<Rightarrow>
                               Inr (d\<lparr>strips_m := (strips_m d)[unat strip :=
                                       LEDStrip_SetBrightnessScale
                                         (scale_of (brightnessScale16 lo hi))
                                         (strips_m d ! unat strip)]\<rparr>, [])))
                     else Inr (d, []))
               else Inr (d, []))
            else Inr (d, unknown_command b c0))
      else Inr (d, []))"

subsection \<open>SetPixel and FlushFrame\<close>

definition APA102_SetPixel :: "device \<Rightarrow> u32 \<Rightarrow> u32 \<Rightarrow> PixelColor \<Rightarrow> device" where
  "APA102_SetPixel d strip pixel col =
     (if strip < num_strips_m d
      then d\<lparr>strips_m := (strips_m d)[unat strip :=
               LEDStrip_SetPixel8 pixel (red col) (green col) (blue col) (strips_m d ! unat strip)]\<rparr>
      else d)"

definition APA102_FlushFrame :: "device \<Rightarrow> device" where
  "APA102_FlushFrame d = d\<lparr>spi_m := MultiSPI_SendBuffers (strips_m d) (spi_m d)\<rparr>"

subsection \<open>The LPD6803 variant\<close>




subsection \<open>Sequences of calls\<close>

text \<open>The calls the protocol server makes on an adapter, and their effect in sequence.\<close>

datatype call = HandlePusherCommand "u8 list" nat | SetPixel u32 u32 PixelColor | FlushFrame

fun APA102_call :: "build \<Rightarrow> device \<Rightarrow> call \<Rightarrow> error + device \<times> string" where
  "APA102_call b d (HandlePusherCommand buf sz) = APA102_HandlePusherCommand b d buf sz"
| "APA102_call b d (SetPixel strip pixel col) = Inr (APA102_SetPixel d strip pixel col, [])"
| "APA102_call b d FlushFrame = Inr (APA102_FlushFrame d, [])"

fun APA102_run :: "build \<Rightarrow> device \<Rightarrow> call list \<Rightarrow> error + device \<times> string" where
  "APA102_run b d [] = Inr (d, [])"
| "APA102_run b d (c # cs) =
     (case APA102_call b d c of
        Inl e \<Rightarrow> Inl e
      | Inr (d', out) \<Rightarrow>
         (case APA102_run b d' cs of
            Inl e \<Rightarrow> Inl e
          | Inr (d'', out') \<Rightarrow> Inr (d'', out @ out')))"



text \<open>The contract of a call: a command buffer has at least \<^verbatim>\<open>size\<close> bytes.\<close>

fun valid_call :: "call \<Rightarrow> bool" where
  "valid_call (HandlePusherCommand buf sz) = (sz \<le> length buf)"
| "valid_call (SetPixel strip pixel col) = True"
| "valid_call FlushFrame = True"

fun is_command :: "call \<Rightarrow> bool" where
  "is_command (HandlePusherCommand buf sz) = True"
| "is_command (SetPixel strip pixel col) = False"
| "is_command FlushFrame = False"

fun is_flush :: "call \<Rightarrow> bool" where
  "is_flush FlushFrame = True"
| "is_flush (HandlePusherCommand buf sz) = False"
| "is_flush (SetPixel strip pixel col) = False"

subsection \<open>Observations and invariants\<close>

text \<open>
  The array \<^verbatim>\<open>strips_\<close> has \<^verbatim>\<open>num_strips_\<close> elements. The source indexes it under the
  test \<^verbatim>\<open>strip < (uint32_t)num_strips_\<close> alone; the model's list update agrees with the
  source on the adapters that satisfy this invariant, which are all that the
  constructors build and the operations produce.
\<close>

definition well_formed :: "device \<Rightarrow> bool" where
  "well_formed d =
     (0 \<le> sint (num_strips_m d) \<and> length (strips_m d) = nat (sint (num_strips_m d)))"

text \<open>Every strip driver was created on the adapter's own bus controller.\<close>

definition shares_bus :: "device \<Rightarrow> bool" where
  "shares_bus d = list_all (\<lambda>s. strip_spi s = spi_addr (spi_m d)) (strips_m d)"

text \<open>
  What the constructor fixes: the two sizes, for every strip driver its chip, bus, connector
  and length, and the address and clock of the bus controller.
\<close>

definition strip_setup :: "LEDStrip \<Rightarrow> chip \<times> nat \<times> int \<times> cint" where
  "strip_setup s = (chip s, strip_spi s, connector s, count s)"

definition construction ::
    "device \<Rightarrow> cint \<times> cint \<times> (chip \<times> nat \<times> int \<times> cint) list \<times> nat \<times> int" where
  "construction d =
     (num_strips_m d, strip_len_m d, map strip_setup (strips_m d),
      spi_addr (spi_m d), clock_mhz (spi_m d))"

text \<open>Two command tags are the labels of one \<^verbatim>\<open>switch\<close>, hence different.\<close>

definition valid_build :: "build \<Rightarrow> bool" where
  "valid_build b = (PPPusherCommandGlobalBrightness b \<noteq> PPPusherCommandStripBrightness b)"

text \<open>What the bus controller was asked to transmit so far.\<close>

definition transmissions :: "device \<Rightarrow> strip_call list list list" where
  "transmissions d = sent (spi_m d)"


text \<open>
  The strip driver, and the adapter, that differ from the given one in the construction
  parameters of the LPD6803 variant only: the chip of the strip drivers and the clock of
  the bus.
\<close>

definition to_LPD6803 :: "LEDStrip \<Rightarrow> LEDStrip" where
  "to_LPD6803 s = s\<lparr>chip := LPD6803\<rparr>"



text \<open>
  The little-endian unsigned 16-bit value held by the bytes \<open>k\<close> and \<open>k + 1\<close> of a
  buffer, as the protocol defines the brightness field.
\<close>

definition le16 :: "u8 list \<Rightarrow> nat \<Rightarrow> nat" where
  "le16 buf k = unat (buf ! k) + 256 * unat (buf ! Suc k)"

subsection \<open>Example values\<close>

text \<open>
  Two builds with the tag values 2 and 5, one with an unsigned plain \<^verbatim>\<open>char\<close> (the ARM Linux ABI) and one with a signed one (the x86 ABIs); the
  adapter of four strips of ten pixels; and an adapter of 256 strips.
\<close>

definition unsigned_build :: build where
  "unsigned_build =
     \<lparr>char_is_signed = False, PPPusherCommandGlobalBrightness = 2,
      PPPusherCommandStripBrightness = 5\<rparr>"

definition signed_build :: build where
  "signed_build =
     \<lparr>char_is_signed = True, PPPusherCommandGlobalBrightness = 2,
      PPPusherCommandStripBrightness = 5\<rparr>"

definition four_strips :: device where
  "four_strips =
     \<lparr>num_strips_m = 4, strip_len_m = 10,
      strips_m = [CreateStrip APA102 0 1 10, CreateStrip APA102 0 2 10,
                  CreateStrip APA102 0 3 10, CreateStrip APA102 0 4 10],
      spi_m = CreateDirectMultiSPI 0 kAPA102ClockMhz\<rparr>"

text \<open>The adapter of four strips after a GlobalBrightness command of full brightness.\<close>

definition four_bright :: device where
  "four_bright =
     four_strips\<lparr>strips_m := map (LEDStrip_SetBrightnessScale 1) (strips_m four_strips)\<rparr>"

definition wide_device :: device where
  "wide_device =
     \<lparr>num_strips_m = 256, strip_len_m = 10,
      strips_m = create_strips APA102 0 10 0 256,
      spi_m = CreateDirectMultiSPI 0 kAPA102ClockMhz\<rparr>"

definition white :: PixelColor where
  "white = \<lparr>red = 255, green = 255, blue = 255\<rparr>"

section \<open>Arithmetic of the brightness value\<close>

lemma byte_bound: "unat (c :: u8) < 256"
  using unsigned_less [of c, where 'a = nat] by simp

lemma unat_load_u16: "unat (load_u16 lo hi) = unat lo + 256 * unat hi"
proof -
  have "unat lo + 256 * unat hi < 65536"
    using byte_bound [of lo] byte_bound [of hi] by arith
  moreover have "unat (word_of_nat (unat lo + 256 * unat hi) :: u16)
      = (unat lo + 256 * unat hi) mod 2 ^ LENGTH(16)"
    by (rule unat_of_nat)
  ultimately show ?thesis
    unfolding load_u16_def by simp
qed

lemma unat_brightnessScale16: "unat (brightnessScale16 lo hi) = unat lo + 256 * unat hi + 1"
proof -
  have b: "unat lo + 256 * unat hi < 65536"
    using byte_bound [of lo] byte_bound [of hi] by arith
  have "unat lo + 256 * unat hi < 2 ^ 32"
    using b by simp
  then have "unat (ucast (load_u16 lo hi) :: u32) = unat lo + 256 * unat hi"
    by (simp add: unat_load_u16 unsigned_ucast_eq take_bit_nat_eq_self)
  then show ?thesis
    using b by (simp add: brightnessScale16_def unat_word_ariths)
qed

lemma scale_of_brightnessScale16:
  "scale_of (brightnessScale16 lo hi) = (real (unat lo + 256 * unat hi) + 1) / 65536"
  by (simp add: scale_of_def unat_brightnessScale16)

text \<open>
  The scale is a binary32 number: an integer of at most 17 bits times \<open>2^-16\<close>. Neither
  the conversion of \<^verbatim>\<open>brightnessScale16\<close> to \<^verbatim>\<open>float\<close> nor the division rounds.
\<close>

lemma two_powr_minus_16: "(2::real) powr real_of_int (- 16) = 1 / 65536"
proof -
  have "(2::real) powr (- 16) = inverse (2 powr 16)"
    by (rule powr_minus)
  also have "(2::real) powr 16 = 2 ^ 16"
    using powr_numeral [of "2::real" "num.Bit0 (num.Bit0 (num.Bit0 (num.Bit0 num.One)))"] by simp
  finally show ?thesis by simp
qed

lemma scale_is_binary32: "is_binary32 (scale_of (brightnessScale16 lo hi))"
proof -
  define k where "k = unat lo + 256 * unat hi"
  define m where "m = int k + 1"
  have "k < 65536"
    unfolding k_def using byte_bound [of lo] byte_bound [of hi] by arith
  then have b: "\<bar>m\<bar> < 2 ^ 24"
    by (simp add: m_def)
  have "scale_of (brightnessScale16 lo hi) = (real k + 1) / 65536"
    unfolding k_def by (rule scale_of_brightnessScale16)
  then have "scale_of (brightnessScale16 lo hi) = real_of_int m * 2 powr real_of_int (- 16)"
    unfolding two_powr_minus_16 by (simp add: m_def)
  with b show ?thesis
    unfolding is_binary32_def by (intro exI [of _ m] exI [of _ "- 16"]) simp
qed

lemma sint_nonneg_uint: "0 \<le> sint (n :: 32 word) \<Longrightarrow> uint n = sint n"
proof -
  assume a: "0 \<le> sint n"
  have "sint n < 2 ^ 31" using sint_lt [of n] by simp
  then have "sint n < 2 ^ 32" by simp
  then have "take_bit 32 (sint n) = sint n"
    using a by (simp add: take_bit_int_eq_self)
  then show ?thesis using uint_sint [of n] by simp
qed

lemma sint_nonneg_unat: "0 \<le> sint (n :: 32 word) \<Longrightarrow> unat n = nat (sint n)"
  using sint_nonneg_uint [of n] unat_eq_nat_uint [of n] by presburger

section \<open>The loops\<close>

lemma length_create_strips: "length (create_strips c a len strip n) = nat (n - strip)"
proof (induction c a len strip n rule: create_strips.induct)
  case (1 c a len strip n)
  show ?case
  proof (cases "strip < n")
    case True
    with 1 show ?thesis
      by (subst create_strips.simps) (simp add: Suc_nat_eq_nat_zadd1 nat_diff_distrib)
  next
    case False
    then show ?thesis by (subst create_strips.simps) simp
  qed
qed

lemma nth_create_strips:
  "i < nat (n - strip) \<Longrightarrow>
   create_strips c a len strip n ! i = CreateStrip c a (strip + int i + 1) len"
proof (induction c a len strip n arbitrary: i rule: create_strips.induct)
  case (1 c a len strip n)
  from 1(2) have lt: "strip < n" by simp
  show ?case
  proof (cases i)
    case 0
    with lt show ?thesis by (subst create_strips.simps) simp
  next
    case (Suc j)
    with 1(2) have "j < nat (n - (strip + 1))" by simp
    from 1(1) [OF lt this] Suc lt show ?thesis
      by (subst create_strips.simps) (simp add: algebra_simps)
  qed
qed

lemma set_all_brightness_take_drop:
  "0 \<le> strip \<Longrightarrow> strip \<le> n \<Longrightarrow> length strips = nat n \<Longrightarrow>
   set_all_brightness scale strip n strips =
     take (nat strip) strips @ map (LEDStrip_SetBrightnessScale scale) (drop (nat strip) strips)"
proof (induction scale strip n strips rule: set_all_brightness.induct)
  case (1 scale strip n strips)
  show ?case
  proof (cases "strip < n")
    case True
    let ?k = "nat strip"
    let ?f = "LEDStrip_SetBrightnessScale scale"
    let ?s = "strips[?k := ?f (strips ! ?k)]"
    from True 1(2) 1(4) have k: "?k < length strips" by simp
    have nk: "nat (strip + 1) = Suc ?k" using 1(2) by simp
    have "set_all_brightness scale strip n strips = set_all_brightness scale (strip + 1) n ?s"
      using True by (subst set_all_brightness.simps) simp
    also have "\<dots> = take (nat (strip + 1)) ?s @ map ?f (drop (nat (strip + 1)) ?s)"
      using 1(1) [OF True] True 1(2) 1(4) by simp
    also have "\<dots> = (take ?k strips @ [?f (strips ! ?k)]) @ map ?f (drop (Suc ?k) strips)"
      using k by (simp add: nk take_Suc_conv_app_nth)
    also have "\<dots> = take ?k strips @ map ?f (drop ?k strips)"
      using k by (simp add: Cons_nth_drop_Suc [symmetric])
    finally show ?thesis .
  next
    case False
    with 1(3) 1(4) have "strip = n" "drop (nat strip) strips = []" by simp_all
    with False show ?thesis by (subst set_all_brightness.simps) simp
  qed
qed

lemma set_all_brightness_map:
  "well_formed d \<Longrightarrow>
   set_all_brightness scale 0 (sint (num_strips_m d)) (strips_m d) =
     map (LEDStrip_SetBrightnessScale scale) (strips_m d)"
  using set_all_brightness_take_drop [of 0 "sint (num_strips_m d)" "strips_m d" scale]
  by (simp add: well_formed_def)

section \<open>The strip index read from a plain char\<close>

text \<open>
  \<^verbatim>\<open>uint32_t const strip = buf[1]\<close> converts a plain \<^verbatim>\<open>char\<close>. Where it is unsigned,
  and for the bytes below \<open>0x80\<close> everywhere, the index is the byte. Where it is signed,
  a byte from \<open>0x80\<close> on is negative, and its conversion adds \<open>2^32\<close>.
\<close>

lemma uint_byte_bound: "uint (c :: u8) < 256"
  using uint_bounded [of c] by simp

lemma sint_u8: "sint (c :: u8) = (if uint c < 128 then uint c else uint c - 256)"
proof -
  have s: "sint c = take_bit 8 (uint c + 128) - 128"
    using sint_uint [of c] signed_take_bit_eq_take_bit_shift [of 7 "uint c"] by simp
  have p: "0 \<le> uint c" by simp
  show ?thesis
  proof (cases "uint c < 128")
    case True
    then have "take_bit 8 (uint c + 128) = uint c + 128"
      using p by (simp add: take_bit_int_eq_self)
    with s True show ?thesis by simp
  next
    case False
    have "take_bit 8 (uint c + 128) = (uint c + 128) mod 256"
      by (simp add: take_bit_eq_mod)
    also have "\<dots> = uint c - 128"
      using False uint_byte_bound [of c] by (simp add: mod_pos_geq)
    finally show ?thesis using s False by simp
  qed
qed

lemma unat_char_to_u32:
  "unat (char_to_u32 b c) =
     (if char_is_signed b \<and> 128 \<le> unat c then 4294967040 + unat c else unat c)"
proof -
  define k where "k = unat c"
  have u: "uint c = int k" by (simp add: k_def)
  have bnd: "k < 256" unfolding k_def by (rule byte_bound)
  have w: "unat (word_of_int i :: u32) = nat (i mod 4294967296)" for i
    using uint_word_of_int [of i, where 'a = 32] unat_eq_nat_uint [of "word_of_int i :: u32"]
    by simp
  have "unat (char_to_u32 b c) = (if char_is_signed b \<and> 128 \<le> k then 4294967040 + k else k)"
  proof (cases "char_is_signed b \<and> 128 \<le> k")
    case True
    then have "char_to_int b c = int k - 256"
      by (simp add: char_to_int_def sint_u8 u)
    moreover have "(int k - 256) mod 4294967296 = 4294967040 + int k"
    proof -
      have "(int k - 256) mod 4294967296 = (int k - 256 + 4294967296) mod 4294967296"
        by (simp only: mod_add_self2)
      also have "\<dots> = int k - 256 + 4294967296"
        using True bnd by (intro mod_pos_pos_trivial) simp_all
      finally show ?thesis by simp
    qed
    ultimately have "nat (char_to_int b c mod 4294967296) = nat (4294967040 + int k)"
      by (simp only:)
    then have "unat (char_to_u32 b c) = nat (4294967040 + int k)"
      unfolding char_to_u32_def w .
    then show ?thesis using True by (simp add: nat_add_distrib)
  next
    case False
    then have "char_to_int b c = int k"
      by (auto simp: char_to_int_def sint_u8 u)
    moreover have "int k mod 4294967296 = int k"
      using bnd by simp
    ultimately have "nat (char_to_int b c mod 4294967296) = nat (int k)"
      by (simp only:)
    then have "unat (char_to_u32 b c) = nat (int k)"
      unfolding char_to_u32_def w .
    then show ?thesis using False by simp
  qed
  then show ?thesis by (simp add: k_def)
qed

lemma char_to_u32_ge: "unat c \<le> unat (char_to_u32 b c)"
  by (simp add: unat_char_to_u32)

lemma char_to_u32_byte:
  "\<not> char_is_signed b \<or> unat c < 128 \<Longrightarrow> unat (char_to_u32 b c) = unat c"
  by (auto simp: unat_char_to_u32)

lemma signed_char_index_out_of_range:
  assumes "char_is_signed b" and "128 \<le> unat c" and "0 \<le> sint (n :: cint)"
  shows "\<not> char_to_u32 b c < n"
proof -
  have "sint n < 2 ^ 31" using sint_lt [of n] by simp
  then have "unat n < 2147483648"
    using sint_nonneg_unat [OF assms(3)] by simp
  moreover have "unat (char_to_u32 b c) = 4294967040 + unat c"
    using assms(1,2) by (simp add: unat_char_to_u32)
  ultimately show ?thesis by (simp add: word_less_nat_alt)
qed

section \<open>The drivers' observations\<close>

lemma last_scale_append_set: "last_scale (cs @ [SetBrightnessScale x]) = Some x"
  by (induction cs) simp_all

lemma last_scale_append_pixel: "last_scale (cs @ [SetPixel8 p r g bl]) = last_scale cs"
  by (induction cs) simp_all

lemma brightness_scale_set [simp]:
  "brightness_scale (LEDStrip_SetBrightnessScale x s) = Some x"
  by (simp add: brightness_scale_def LEDStrip_SetBrightnessScale_def last_scale_append_set)

lemma brightness_scale_pixel [simp]:
  "brightness_scale (LEDStrip_SetPixel8 p r g bl s) = brightness_scale s"
  by (simp add: brightness_scale_def LEDStrip_SetPixel8_def last_scale_append_pixel)

lemma well_formed_four_strips: "well_formed four_strips"
  by (simp add: well_formed_def four_strips_def)

lemma APA102SpixelsDevice_four_strips: "APA102SpixelsDevice 0 4 10 = Inr four_strips"
  by (simp add: APA102SpixelsDevice_def SpixelsDevice_def four_strips_def create_strips.simps)

lemma read_byte_in: "i < length buf \<Longrightarrow> read_byte buf i = Inr (buf ! i)"
  by (simp add: read_byte_def)

lemma GlobalBrightness_result:
  assumes "3 \<le> sz" "sz \<le> length buf"
    and "char_to_int b (buf ! 0) = PPPusherCommandGlobalBrightness b"
  shows "APA102_HandlePusherCommand b d buf sz =
     Inr (d\<lparr>strips_m := set_all_brightness ((real (le16 buf 1) + 1) / 65536) 0
                 (sint (num_strips_m d)) (strips_m d)\<rparr>, [])"
proof -
  have l: "0 < length buf" "1 < length buf" "2 < length buf"
    using assms(1,2) by linarith+
  have "read_byte buf 0 = Inr (buf ! 0)" "read_byte buf 1 = Inr (buf ! 1)"
    "read_byte buf 2 = Inr (buf ! 2)"
    by (rule read_byte_in [OF l(1)], rule read_byte_in [OF l(2)], rule read_byte_in [OF l(3)])
  moreover have "le16 buf 1 = unat (buf ! 1) + 256 * unat (buf ! 2)"
    by (simp add: le16_def numeral_2_eq_2)
  ultimately show ?thesis
    using assms(1,3)
    by (simp add: APA102_HandlePusherCommand_def scale_of_brightnessScale16)
qed

lemma well_formed_four_bright: "well_formed four_bright"
  by (simp add: well_formed_def four_bright_def four_strips_def)

lemma valid_unsigned_build: "valid_build unsigned_build"
  by (simp add: valid_build_def unsigned_build_def)

lemma valid_signed_build: "valid_build signed_build"
  by (simp add: valid_build_def signed_build_def)

lemma well_formed_wide_device: "well_formed wide_device"
  by (simp add: well_formed_def wide_device_def length_create_strips)

section \<open>GlobalBrightness\<close>

text \<open>
  C1. A command whose byte 0 is the GlobalBrightness tag and whose size is at least 3
  gives every strip of the adapter, index \<open>0\<close> to \<open>num_strips - 1\<close>, exactly one
  \<^verbatim>\<open>SetBrightnessScale\<close> call with the scale \<open>(v + 1) / 65536\<close>, where \<open>v\<close> is the
  little-endian unsigned 16-bit value of bytes 1 and 2, and changes nothing else; the
  scale is 1 for \<open>v = 65535\<close> and \<open>1 / 65536\<close>, not zero, for \<open>v = 0\<close>.
\<close>

theorem GlobalBrightness_sets_every_strip:
  assumes "well_formed d" and "3 \<le> sz" and "sz \<le> length buf"
    and "char_to_int b (buf ! 0) = PPPusherCommandGlobalBrightness b"
  shows "\<exists>d'. APA102_HandlePusherCommand b d buf sz = Inr (d', [])
      \<and> d' = d\<lparr>strips_m :=
                 map (LEDStrip_SetBrightnessScale ((real (le16 buf 1) + 1) / 65536)) (strips_m d)\<rparr>
      \<and> length (strips_m d') = nat (sint (num_strips_m d))
      \<and> (\<forall>k < nat (sint (num_strips_m d)).
            brightness_scale (strips_m d' ! k) = Some ((real (le16 buf 1) + 1) / 65536))
      \<and> (le16 buf 1 = 65535 \<longrightarrow>
            (\<forall>k < nat (sint (num_strips_m d)). brightness_scale (strips_m d' ! k) = Some 1))
      \<and> (le16 buf 1 = 0 \<longrightarrow>
            (\<forall>k < nat (sint (num_strips_m d)).
               brightness_scale (strips_m d' ! k) = Some (1 / 65536)
               \<and> brightness_scale (strips_m d' ! k) \<noteq> Some 0))"
proof -
  let ?s = "(real (le16 buf 1) + 1) / 65536"
  let ?d = "d\<lparr>strips_m := map (LEDStrip_SetBrightnessScale ?s) (strips_m d)\<rparr>"
  have run: "APA102_HandlePusherCommand b d buf sz = Inr (?d, [])"
    using GlobalBrightness_result [OF assms(2-4)] set_all_brightness_map [OF assms(1)]
    by simp
  have len: "length (strips_m ?d) = nat (sint (num_strips_m d))"
    using assms(1) by (simp add: well_formed_def)
  have each: "brightness_scale (strips_m ?d ! k) = Some ?s"
    if "k < nat (sint (num_strips_m d))" for k
    using that assms(1) by (simp add: well_formed_def)
  have full: "brightness_scale (strips_m ?d ! k) = Some 1"
    if "k < nat (sint (num_strips_m d))" and "le16 buf 1 = 65535" for k
    using each [OF that(1)] that(2) by simp
  have low: "brightness_scale (strips_m ?d ! k) = Some (1 / 65536)
      \<and> brightness_scale (strips_m ?d ! k) \<noteq> Some 0"
    if "k < nat (sint (num_strips_m d))" and "le16 buf 1 = 0" for k
    using each [OF that(1)] that(2) by simp
  show ?thesis
  proof (intro exI [of _ ?d] conjI allI impI)
    show "APA102_HandlePusherCommand b d buf sz = Inr (?d, [])" by (rule run)
    show "?d = ?d" by (rule refl)
    show "length (strips_m ?d) = nat (sint (num_strips_m d))" by (rule len)
    show "brightness_scale (strips_m ?d ! k) = Some ?s"
      if "k < nat (sint (num_strips_m d))" for k by (rule each [OF that])
    show "brightness_scale (strips_m ?d ! k) = Some 1"
      if "le16 buf 1 = 65535" "k < nat (sint (num_strips_m d))" for k
      by (rule full [OF that(2) that(1)])
    show "brightness_scale (strips_m ?d ! k) = Some (1 / 65536)"
      if "le16 buf 1 = 0" "k < nat (sint (num_strips_m d))" for k
      using low [OF that(2) that(1)] by simp
    show "brightness_scale (strips_m ?d ! k) \<noteq> Some 0"
      if "le16 buf 1 = 0" "k < nat (sint (num_strips_m d))" for k
      using low [OF that(2) that(1)] by simp
  qed
qed

text \<open>
  The scenario of the specification: on the adapter of four strips, the payload
  \<open>0xFF 0xFF\<close> sets the scale of all four strips to 1.
\<close>

theorem GlobalBrightness_sets_every_strip_witness:
  "\<exists>d'. APA102_HandlePusherCommand unsigned_build four_strips [2, 0xFF, 0xFF] 3 = Inr (d', [])
     \<and> map brightness_scale (strips_m d') = [Some 1, Some 1, Some 1, Some 1]"
proof -
  have tag: "char_to_int unsigned_build ([2, 0xFF, 0xFF] ! 0)
      = PPPusherCommandGlobalBrightness unsigned_build"
    by (simp add: char_to_int_def unsigned_build_def)
  have v: "le16 [2, 0xFF, 0xFF] 1 = 65535"
    by (simp add: le16_def)
  have "(3::nat) \<le> 3" and "3 \<le> length [2 :: u8, 0xFF, 0xFF]"
    by simp_all
  from GlobalBrightness_sets_every_strip [OF well_formed_four_strips this tag]
  obtain d' where r: "APA102_HandlePusherCommand unsigned_build four_strips [2, 0xFF, 0xFF] 3 = Inr (d', [])"
    and e: "d' = four_strips\<lparr>strips_m :=
        map (LEDStrip_SetBrightnessScale ((real (le16 [2, 0xFF, 0xFF] 1) + 1) / 65536))
          (strips_m four_strips)\<rparr>"
    by (elim exE conjE)
  have "map brightness_scale (strips_m d') = [Some 1, Some 1, Some 1, Some 1]"
    unfolding e v by (simp add: four_strips_def)
  with r show ?thesis by (intro exI [of _ d'] conjI)
qed


section \<open>StripBrightness\<close>

lemma StripBrightness_result:
  assumes "4 \<le> sz" "sz \<le> length buf"
    and "valid_build b"
    and "char_to_int b (buf ! 0) = PPPusherCommandStripBrightness b"
  shows "APA102_HandlePusherCommand b d buf sz =
     (if char_to_u32 b (buf ! 1) < num_strips_m d
      then Inr (d\<lparr>strips_m := (strips_m d)[unat (char_to_u32 b (buf ! 1)) :=
                   LEDStrip_SetBrightnessScale ((real (le16 buf 2) + 1) / 65536)
                     (strips_m d ! unat (char_to_u32 b (buf ! 1)))]\<rparr>, [])
      else Inr (d, []))"
proof -
  have l: "0 < length buf" "1 < length buf" "2 < length buf" "3 < length buf"
    using assms(1,2) by linarith+
  have "read_byte buf 0 = Inr (buf ! 0)" "read_byte buf 1 = Inr (buf ! 1)"
    "read_byte buf 2 = Inr (buf ! 2)" "read_byte buf 3 = Inr (buf ! 3)"
    by (rule read_byte_in [OF l(1)], rule read_byte_in [OF l(2)],
        rule read_byte_in [OF l(3)], rule read_byte_in [OF l(4)])
  moreover have "le16 buf 2 = unat (buf ! 2) + 256 * unat (buf ! 3)"
    by (simp add: le16_def numeral_3_eq_3)
  moreover have "char_to_int b (buf ! 0) \<noteq> PPPusherCommandGlobalBrightness b"
    using assms(3,4) by (simp add: valid_build_def)
  ultimately show ?thesis
    using assms(1,4)
    by (simp add: APA102_HandlePusherCommand_def scale_of_brightnessScale16 Let_def)
qed


text \<open>
  The frame of the StripBrightness case, on the index that the source tests: a command
  whose byte 0 is the StripBrightness tag, whose size is at least 4 and whose strip index
  \<open>k\<close>, as line 95 converts it from byte 1, is below \<open>num_strips\<close> gives strip \<open>k\<close> one
  \<^verbatim>\<open>SetBrightnessScale\<close> call with the scale \<open>(v + 1) / 65536\<close> of bytes 2 and 3, and
  changes nothing else: every other strip, and with it its last-set brightness scale, is
  as before. The index \<open>k\<close> is the byte itself where plain \<^verbatim>\<open>char\<close> is unsigned and for
  every byte below 128, and only there.
\<close>

lemma StripBrightness_index_sets_one_strip:
  assumes "well_formed d" and "valid_build b" and "4 \<le> sz" and "sz \<le> length buf"
    and "char_to_int b (buf ! 0) = PPPusherCommandStripBrightness b"
    and "char_to_u32 b (buf ! 1) < num_strips_m d"
    and "k = unat (char_to_u32 b (buf ! 1))"
  shows "\<exists>d'. APA102_HandlePusherCommand b d buf sz = Inr (d', [])
      \<and> d' = d\<lparr>strips_m := (strips_m d)[k :=
                 LEDStrip_SetBrightnessScale ((real (le16 buf 2) + 1) / 65536) (strips_m d ! k)]\<rparr>
      \<and> k < length (strips_m d)
      \<and> length (strips_m d') = length (strips_m d)
      \<and> brightness_scale (strips_m d' ! k) = Some ((real (le16 buf 2) + 1) / 65536)
      \<and> (\<forall>j < length (strips_m d). j \<noteq> k \<longrightarrow>
            strips_m d' ! j = strips_m d ! j
            \<and> brightness_scale (strips_m d' ! j) = brightness_scale (strips_m d ! j))
      \<and> (\<not> char_is_signed b \<or> unat (buf ! 1) < 128 \<longrightarrow> k = unat (buf ! 1))"
proof -
  let ?s = "(real (le16 buf 2) + 1) / 65536"
  let ?d = "d\<lparr>strips_m := (strips_m d)[k := LEDStrip_SetBrightnessScale ?s (strips_m d ! k)]\<rparr>"
  have run: "APA102_HandlePusherCommand b d buf sz = Inr (?d, [])"
    using StripBrightness_result [OF assms(3,4,2,5), of d] assms(6,7) by simp
  have "k < unat (num_strips_m d)"
    using assms(6,7) by (simp add: word_less_nat_alt)
  then have k: "k < length (strips_m d)"
    using assms(1) sint_nonneg_unat [of "num_strips_m d"] by (simp add: well_formed_def)
  have byte: "k = unat (buf ! 1)" if "\<not> char_is_signed b \<or> unat (buf ! 1) < 128"
    using char_to_u32_byte [OF that] assms(7) by simp
  show ?thesis
  proof (intro exI [of _ ?d] conjI allI impI)
    show "APA102_HandlePusherCommand b d buf sz = Inr (?d, [])" by (rule run)
    show "?d = ?d" by (rule refl)
    show "k < length (strips_m d)" by (rule k)
    show "length (strips_m ?d) = length (strips_m d)" by simp
    show "brightness_scale (strips_m ?d ! k) = Some ?s" using k by simp
    show "strips_m ?d ! j = strips_m d ! j" if "j < length (strips_m d)" "j \<noteq> k" for j
      using that by simp
    show "brightness_scale (strips_m ?d ! j) = brightness_scale (strips_m d ! j)"
      if "j < length (strips_m d)" "j \<noteq> k" for j
      using that by simp
    show "k = unat (buf ! 1)" if "\<not> char_is_signed b \<or> unat (buf ! 1) < 128"
      by (rule byte [OF that])
  qed
qed

text \<open>
  The scenario of the specification: with all four strips at scale 1, the command
  \<open>[tag, 1, 0, 0]\<close> sets strip 1 to \<open>1 / 65536\<close> and leaves strips 0, 2 and 3 at 1.
\<close>

lemma StripBrightness_scenario:
  "\<exists>d'. APA102_HandlePusherCommand unsigned_build four_bright [5, 1, 0, 0] 4 = Inr (d', [])
     \<and> map brightness_scale (strips_m d') = [Some 1, Some (1 / 65536), Some 1, Some 1]"
proof -
  have tag: "char_to_int unsigned_build ([5, 1, 0, 0] ! 0)
      = PPPusherCommandStripBrightness unsigned_build"
    by (simp add: char_to_int_def unsigned_build_def)
  have k: "1 = unat (char_to_u32 unsigned_build ([5, 1, 0, 0] ! 1))"
    by (simp add: unat_char_to_u32)
  have lt: "char_to_u32 unsigned_build ([5, 1, 0, 0] ! 1) < num_strips_m four_bright"
    unfolding word_less_nat_alt k [symmetric] by (simp add: four_bright_def four_strips_def)
  have "(4::nat) \<le> 4" and "4 \<le> length [5 :: u8, 1, 0, 0]"
    by simp_all
  from StripBrightness_index_sets_one_strip
    [OF well_formed_four_bright valid_unsigned_build this tag lt k]
  obtain d' where r: "APA102_HandlePusherCommand unsigned_build four_bright [5, 1, 0, 0] 4 = Inr (d', [])"
    and e: "d' = four_bright\<lparr>strips_m := (strips_m four_bright)[1 :=
        LEDStrip_SetBrightnessScale ((real (le16 [5, 1, 0, 0] 2) + 1) / 65536)
          (strips_m four_bright ! 1)]\<rparr>"
    by (elim exE conjE)
  have "map brightness_scale (strips_m d') = [Some 1, Some (1 / 65536), Some 1, Some 1]"
    unfolding e by (simp add: four_bright_def four_strips_def le16_def)
  with r show ?thesis by (intro exI [of _ d'] conjI)
qed

text \<open>
  C4. A command whose byte 0 is the StripBrightness tag, whose size is at least 4 and
  whose strip index is not below \<open>num_strips\<close> (the byte of offset 1, or the index the
  source converts it to) is ignored: the call returns without an error, the adapter is
  unchanged and nothing is written to \<^verbatim>\<open>stderr\<close>.
\<close>

theorem StripBrightness_out_of_range_ignored:
  assumes "valid_build b" and "4 \<le> sz" and "sz \<le> length buf"
    and "char_to_int b (buf ! 0) = PPPusherCommandStripBrightness b"
    and "unat (num_strips_m d) \<le> unat (buf ! 1) \<or> num_strips_m d \<le> char_to_u32 b (buf ! 1)"
  shows "APA102_HandlePusherCommand b d buf sz = Inr (d, [])"
proof -
  have "unat (num_strips_m d) \<le> unat (char_to_u32 b (buf ! 1))"
    using assms(5) char_to_u32_ge [of "buf ! 1" b] by (auto simp: word_le_nat_alt)
  then have "\<not> char_to_u32 b (buf ! 1) < num_strips_m d"
    by (simp add: word_less_nat_alt)
  then show ?thesis
    using StripBrightness_result [OF assms(2,3,1,4), of d] by simp
qed


text \<open>On the adapter of four strips, the strip index 4 is ignored.\<close>

theorem StripBrightness_out_of_range_ignored_witness:
  "APA102_HandlePusherCommand unsigned_build four_bright [5, 4, 0, 0] 4 = Inr (four_bright, [])"
proof -
  have tag: "char_to_int unsigned_build ([5, 4, 0, 0] ! 0)
      = PPPusherCommandStripBrightness unsigned_build"
    by (simp add: char_to_int_def unsigned_build_def)
  have ge: "unat (num_strips_m four_bright) \<le> unat ([5 :: u8, 4, 0, 0] ! 1)
      \<or> num_strips_m four_bright \<le> char_to_u32 unsigned_build ([5, 4, 0, 0] ! 1)"
    by (simp add: four_bright_def four_strips_def)
  have "(4::nat) \<le> 4" and "4 \<le> length [5 :: u8, 4, 0, 0]"
    by simp_all
  from StripBrightness_out_of_range_ignored [OF valid_unsigned_build this tag ge]
  show ?thesis .
qed

text \<open>
  Where plain \<^verbatim>\<open>char\<close> is signed, a strip index byte from 128 on is sign-extended and
  never below \<open>num_strips\<close>: the command is ignored whatever the number of strips.
\<close>

lemma StripBrightness_signed_char_ignored:
  assumes "well_formed d" and "valid_build b" and "4 \<le> sz" and "sz \<le> length buf"
    and "char_to_int b (buf ! 0) = PPPusherCommandStripBrightness b"
    and "char_is_signed b" and "128 \<le> unat (buf ! 1)"
  shows "APA102_HandlePusherCommand b d buf sz = Inr (d, [])"
proof -
  have "0 \<le> sint (num_strips_m d)"
    using assms(1) by (simp add: well_formed_def)
  from signed_char_index_out_of_range [OF assms(6,7) this]
  show ?thesis
    using StripBrightness_result [OF assms(3,4,2,5), of d] by simp
qed

text \<open>
  C3. On the adapter of 256 strips, the strip index byte 200 of a StripBrightness
  command of size 4 is below \<open>num_strips\<close>. A build whose plain \<^verbatim>\<open>char\<close> is signed
  returns the adapter as it was: the scale of strip 200 is not set, where the claim has
  it set. The same build sets strip 100 alone for the byte 100, and a build whose plain
  \<^verbatim>\<open>char\<close> is unsigned sets strip 200 alone for the byte 200: where a strip is set, no
  other strip changes.
\<close>

theorem StripBrightness_signed_char_sets_no_strip:
  "unat (([5, 200, 0x34, 0x12] :: u8 list) ! 1) < unat (num_strips_m wide_device)
   \<and> APA102_HandlePusherCommand signed_build wide_device [5, 200, 0x34, 0x12] 4
       = Inr (wide_device, [])
   \<and> APA102_HandlePusherCommand signed_build wide_device [5, 100, 0x34, 0x12] 4
       = Inr (wide_device\<lparr>strips_m := (strips_m wide_device)[100 :=
                LEDStrip_SetBrightnessScale (4661 / 65536) (strips_m wide_device ! 100)]\<rparr>, [])
   \<and> APA102_HandlePusherCommand unsigned_build wide_device [5, 200, 0x34, 0x12] 4
       = Inr (wide_device\<lparr>strips_m := (strips_m wide_device)[200 :=
                LEDStrip_SetBrightnessScale (4661 / 65536) (strips_m wide_device ! 200)]\<rparr>, [])"
proof (intro conjI)
  show "unat (([5, 200, 0x34, 0x12] :: u8 list) ! 1) < unat (num_strips_m wide_device)"
    by (simp add: wide_device_def)
  have len: "(4::nat) \<le> 4" "4 \<le> length [5 :: u8, 200, 0x34, 0x12]"
    "4 \<le> length [5 :: u8, 100, 0x34, 0x12]"
    by simp_all
  have tag_s: "char_to_int signed_build ([5, 200, 0x34, 0x12] ! 0)
      = PPPusherCommandStripBrightness signed_build"
    "char_to_int signed_build ([5, 100, 0x34, 0x12] ! 0)
      = PPPusherCommandStripBrightness signed_build"
    by (simp_all add: char_to_int_def signed_build_def)
  have tag_u: "char_to_int unsigned_build ([5, 200, 0x34, 0x12] ! 0)
      = PPPusherCommandStripBrightness unsigned_build"
    by (simp add: char_to_int_def unsigned_build_def)
  have "char_is_signed signed_build" and "128 \<le> unat ([5 :: u8, 200, 0x34, 0x12] ! 1)"
    by (simp_all add: signed_build_def)
  from StripBrightness_signed_char_ignored
    [OF well_formed_wide_device valid_signed_build len(1,2) tag_s(1) this]
  show "APA102_HandlePusherCommand signed_build wide_device [5, 200, 0x34, 0x12] 4
      = Inr (wide_device, [])" .
  have n: "unat (num_strips_m wide_device) = 256"
    by (simp add: wide_device_def)
  have v: "(real (le16 [5, 200, 0x34, 0x12] 2) + 1) / 65536 = 4661 / 65536"
    "(real (le16 [5, 100, 0x34, 0x12] 2) + 1) / 65536 = 4661 / 65536"
    by (simp_all add: le16_def)
  have k100: "unat (char_to_u32 signed_build 100) = 100"
    by (simp add: unat_char_to_u32)
  have k200: "unat (char_to_u32 unsigned_build 200) = 200"
    by (simp add: unat_char_to_u32 unsigned_build_def)
  have lt100: "char_to_u32 signed_build 100 < num_strips_m wide_device"
    unfolding word_less_nat_alt k100 n by simp
  have lt200: "char_to_u32 unsigned_build 200 < num_strips_m wide_device"
    unfolding word_less_nat_alt k200 n by simp
  show "APA102_HandlePusherCommand signed_build wide_device [5, 100, 0x34, 0x12] 4
       = Inr (wide_device\<lparr>strips_m := (strips_m wide_device)[100 :=
                LEDStrip_SetBrightnessScale (4661 / 65536) (strips_m wide_device ! 100)]\<rparr>, [])"
    using StripBrightness_result [OF len(1,3) valid_signed_build tag_s(2), of wide_device] lt100
    by (simp add: k100 v)
  show "APA102_HandlePusherCommand unsigned_build wide_device [5, 200, 0x34, 0x12] 4
       = Inr (wide_device\<lparr>strips_m := (strips_m wide_device)[200 :=
                LEDStrip_SetBrightnessScale (4661 / 65536) (strips_m wide_device ! 200)]\<rparr>, [])"
    using StripBrightness_result [OF len(1,2) valid_unsigned_build tag_u, of wide_device] lt200
    by (simp add: k200 v)
qed

text \<open>
  C9. The strip index is declared \<^verbatim>\<open>uint32_t\<close> and read from a plain \<^verbatim>\<open>char\<close>. On the
  adapter of 256 strips, the StripBrightness command for strip 200 (byte \<open>0xC8\<close>) with
  the value \<open>0x1234\<close> is ignored by a build whose plain \<^verbatim>\<open>char\<close> is signed, and strip
  200 keeps no brightness scale; a build whose plain \<^verbatim>\<open>char\<close> is unsigned sets the
  scale of strip 200 to \<open>4661 / 65536\<close>.
\<close>

theorem StripBrightness_signed_char_index:
  "APA102SpixelsDevice 0 256 10 = Inr wide_device
   \<and> brightness_scale (strips_m wide_device ! 200) = None
   \<and> APA102_HandlePusherCommand signed_build wide_device [5, 200, 0x34, 0x12] 4
       = Inr (wide_device, [])
   \<and> (\<exists>d'. APA102_HandlePusherCommand unsigned_build wide_device [5, 200, 0x34, 0x12] 4
          = Inr (d', [])
        \<and> brightness_scale (strips_m d' ! 200) = Some (4661 / 65536))"
proof (intro conjI)
  show "APA102SpixelsDevice 0 256 10 = Inr wide_device"
    by (simp add: APA102SpixelsDevice_def SpixelsDevice_def wide_device_def)
  show "brightness_scale (strips_m wide_device ! 200) = None"
    by (simp add: wide_device_def nth_create_strips CreateStrip_def brightness_scale_def)
  have len: "(4::nat) \<le> 4" "4 \<le> length [5 :: u8, 200, 0x34, 0x12]"
    by simp_all
  have tag_s: "char_to_int signed_build ([5, 200, 0x34, 0x12] ! 0)
      = PPPusherCommandStripBrightness signed_build"
    by (simp add: char_to_int_def signed_build_def)
  have "char_is_signed signed_build" and "128 \<le> unat ([5 :: u8, 200, 0x34, 0x12] ! 1)"
    by (simp_all add: signed_build_def)
  from StripBrightness_signed_char_ignored
    [OF well_formed_wide_device valid_signed_build len tag_s this]
  show "APA102_HandlePusherCommand signed_build wide_device [5, 200, 0x34, 0x12] 4
      = Inr (wide_device, [])" .
  have tag_u: "char_to_int unsigned_build ([5, 200, 0x34, 0x12] ! 0)
      = PPPusherCommandStripBrightness unsigned_build"
    by (simp add: char_to_int_def unsigned_build_def)
  have k: "unat (char_to_u32 unsigned_build ([5, 200, 0x34, 0x12] ! 1)) = 200"
    by (simp add: unat_char_to_u32 unsigned_build_def)
  have lt: "char_to_u32 unsigned_build ([5, 200, 0x34, 0x12] ! 1) < num_strips_m wide_device"
    unfolding word_less_nat_alt k by (simp add: wide_device_def)
  have l200: "200 < length (strips_m wide_device)"
    by (simp add: wide_device_def length_create_strips)
  have v: "(real (le16 [5, 200, 0x34, 0x12] 2) + 1) / 65536 = 4661 / 65536"
    by (simp add: le16_def)
  show "\<exists>d'. APA102_HandlePusherCommand unsigned_build wide_device [5, 200, 0x34, 0x12] 4
          = Inr (d', [])
        \<and> brightness_scale (strips_m d' ! 200) = Some (4661 / 65536)"
  proof -
    have k': "unat (char_to_u32 unsigned_build 200) = 200"
      using k by simp
    show ?thesis
      using StripBrightness_result [OF len valid_unsigned_build tag_u, of wide_device] lt l200
      by (simp add: k' v)
  qed
qed


section \<open>Short and unknown commands\<close>

text \<open>
  A call that keeps the contract (the buffer has at least \<^verbatim>\<open>size\<close> bytes) reads inside
  the buffer only, and its result does not depend on the bytes from offset \<^verbatim>\<open>size\<close> on.
\<close>

lemma HandlePusherCommand_in_bounds:
  assumes "sz \<le> length buf"
  shows "\<exists>d' out. APA102_HandlePusherCommand b d buf sz = Inr (d', out)"
proof -
  have r: "read_byte buf i = Inr (buf ! i)" if "Suc i \<le> sz" for i
    using that assms by (intro read_byte_in) linarith
  have r0: "read_byte buf 0 = Inr (buf ! 0)" if "1 \<le> sz"
    using r [of 0] that by simp
  have r1: "read_byte buf (Suc 0) = Inr (buf ! Suc 0)"
    and r2: "read_byte buf 2 = Inr (buf ! 2)" if "3 \<le> sz"
    using r [of "Suc 0"] r [of 2] that by simp_all
  have r3: "read_byte buf 3 = Inr (buf ! 3)" if "4 \<le> sz"
    using r [of 3] that by simp
  show ?thesis
    unfolding APA102_HandlePusherCommand_def
    by (simp add: r0 r1 r2 r3 Let_def)
qed

lemma HandlePusherCommand_take:
  assumes "sz \<le> length buf"
  shows "APA102_HandlePusherCommand b d (take sz buf) sz = APA102_HandlePusherCommand b d buf sz"
proof -
  have r: "read_byte (take sz buf) i = read_byte buf i" if "Suc i \<le> sz" for i
    using that assms by (simp add: read_byte_def)
  have r0: "read_byte (take sz buf) 0 = read_byte buf 0" if "1 \<le> sz"
    using r [of 0] that by simp
  have r1: "read_byte (take sz buf) (Suc 0) = read_byte buf (Suc 0)"
    and r2: "read_byte (take sz buf) 2 = read_byte buf 2" if "3 \<le> sz"
    using r [of "Suc 0"] r [of 2] that by simp_all
  have r3: "read_byte (take sz buf) 3 = read_byte buf 3" if "4 \<le> sz"
    using r [of 3] that by simp
  show ?thesis
    unfolding APA102_HandlePusherCommand_def
    by (simp add: r0 r1 r2 r3 Let_def cong: if_cong sum.case_cong)
qed


text \<open>
  C6. On a buffer of exactly \<^verbatim>\<open>size\<close> bytes, if \<^verbatim>\<open>size\<close> is 0, or byte 0 is the
  GlobalBrightness tag and \<^verbatim>\<open>size\<close> is less than 3, or byte 0 is the StripBrightness tag
  and \<^verbatim>\<open>size\<close> is less than 4, the call returns the adapter unchanged and writes nothing
  to \<^verbatim>\<open>stderr\<close>. It reads no byte at or beyond offset \<^verbatim>\<open>size\<close>: such a read is the
  error \<open>out_of_bounds\<close> of the model, and the result is the same whatever bytes follow
  the buffer in memory.
\<close>

theorem undersized_command_ignored:
  assumes "valid_build b" and "length buf = sz"
    and "sz = 0
      \<or> (char_to_int b (buf ! 0) = PPPusherCommandGlobalBrightness b \<and> sz < 3)
      \<or> (char_to_int b (buf ! 0) = PPPusherCommandStripBrightness b \<and> sz < 4)"
  shows "APA102_HandlePusherCommand b d buf sz = Inr (d, [])
      \<and> APA102_HandlePusherCommand b d (buf @ rest) sz = Inr (d, [])"
proof (cases "sz = 0")
  case True
  then show ?thesis by (simp add: APA102_HandlePusherCommand_def)
next
  case False
  then have pos: "0 < length buf" using assms(2) by simp
  then have r: "read_byte buf 0 = Inr (buf ! 0)"
    by (rule read_byte_in)
  have r': "read_byte (buf @ rest) 0 = Inr (buf ! 0)"
    using pos by (simp add: read_byte_def nth_append)
  from assms(3) False consider
      (global) "char_to_int b (buf ! 0) = PPPusherCommandGlobalBrightness b" "sz < 3"
    | (strip) "char_to_int b (buf ! 0) = PPPusherCommandStripBrightness b" "sz < 4"
    by blast
  then show ?thesis
  proof cases
    case global
    then show ?thesis by (simp add: APA102_HandlePusherCommand_def r r')
  next
    case strip
    moreover have "char_to_int b (buf ! 0) \<noteq> PPPusherCommandGlobalBrightness b"
      using strip(1) assms(1) by (simp add: valid_build_def)
    ultimately show ?thesis by (simp add: APA102_HandlePusherCommand_def r r')
  qed
qed

text \<open>A GlobalBrightness command of size 2 is ignored, with or without bytes behind it.\<close>

theorem undersized_command_ignored_witness:
  "APA102_HandlePusherCommand unsigned_build four_bright [2, 0xFF] 2 = Inr (four_bright, [])
   \<and> APA102_HandlePusherCommand unsigned_build four_bright ([2, 0xFF] @ [0x00, 0x07]) 2
       = Inr (four_bright, [])"
proof -
  have "length [2 :: u8, 0xFF] = 2"
    by simp
  moreover have "(2 :: nat) = 0
      \<or> (char_to_int unsigned_build ([2, 0xFF] ! 0) = PPPusherCommandGlobalBrightness unsigned_build
          \<and> (2 :: nat) < 3)
      \<or> (char_to_int unsigned_build ([2, 0xFF] ! 0) = PPPusherCommandStripBrightness unsigned_build
          \<and> (2 :: nat) < 4)"
    by (simp add: char_to_int_def unsigned_build_def)
  ultimately show ?thesis
    by (rule undersized_command_ignored [OF valid_unsigned_build])
qed




section \<open>SetPixel\<close>

text \<open>
  C5. \<^verbatim>\<open>SetPixel(strip, pixel, col)\<close> returns the adapter unchanged when \<^verbatim>\<open>strip\<close> is not
  below \<open>num_strips\<close>. Otherwise the driver of index \<^verbatim>\<open>strip\<close> receives the one call
  \<^verbatim>\<open>SetPixel8(pixel, col.red, col.green, col.blue)\<close> and every other driver is as before.
  The bus controller receives no call, so nothing is transmitted, and \<^verbatim>\<open>pixel\<close> is
  forwarded as it is, whatever the strip length.
\<close>

theorem SetPixel_forwards_to_strip:
  "APA102_SetPixel d strip pixel col =
     (if strip < num_strips_m d
      then d\<lparr>strips_m := (strips_m d)[unat strip :=
               LEDStrip_SetPixel8 pixel (red col) (green col) (blue col)
                 (strips_m d ! unat strip)]\<rparr>
      else d)
   \<and> (\<not> strip < num_strips_m d \<longrightarrow> APA102_SetPixel d strip pixel col = d)
   \<and> transmissions (APA102_SetPixel d strip pixel col) = transmissions d
   \<and> spi_m (APA102_SetPixel d strip pixel col) = spi_m d
   \<and> (well_formed d \<and> strip < num_strips_m d \<longrightarrow>
        calls (strips_m (APA102_SetPixel d strip pixel col) ! unat strip)
          = calls (strips_m d ! unat strip) @ [SetPixel8 pixel (red col) (green col) (blue col)]
        \<and> (\<forall>j < length (strips_m d). j \<noteq> unat strip \<longrightarrow>
              strips_m (APA102_SetPixel d strip pixel col) ! j = strips_m d ! j))"
proof -
  have "unat strip < length (strips_m d)" if "well_formed d" "strip < num_strips_m d"
    using that sint_nonneg_unat [of "num_strips_m d"]
    by (simp add: well_formed_def word_less_nat_alt)
  then show ?thesis
    by (simp add: APA102_SetPixel_def transmissions_def LEDStrip_SetPixel8_def)
qed

text \<open>
  On the adapter of four strips of ten pixels, the pixel index 4000000000 of strip 2 is
  forwarded, nothing is transmitted, and a write to strip 4 does nothing.
\<close>

theorem SetPixel_forwards_to_strip_witness:
  "map calls (strips_m (APA102_SetPixel four_strips 2 4000000000 white))
     = [[], [], [SetPixel8 4000000000 255 255 255], []]
   \<and> transmissions (APA102_SetPixel four_strips 2 4000000000 white) = []
   \<and> APA102_SetPixel four_strips 4 0 white = four_strips"
proof -
  have lt: "(2 :: u32) < num_strips_m four_strips" and ge: "\<not> (4 :: u32) < num_strips_m four_strips"
    by (simp_all add: four_strips_def)
  have "map calls (strips_m (APA102_SetPixel four_strips 2 4000000000 white))
     = [[], [], [SetPixel8 4000000000 255 255 255], []]"
    using SetPixel_forwards_to_strip [of four_strips 2 4000000000 white] lt
    by (simp add: four_strips_def CreateStrip_def LEDStrip_SetPixel8_def white_def)
  moreover have "transmissions (APA102_SetPixel four_strips 2 4000000000 white) = []"
    using SetPixel_forwards_to_strip [of four_strips 2 4000000000 white]
    by (simp add: transmissions_def four_strips_def CreateDirectMultiSPI_def)
  moreover have "APA102_SetPixel four_strips 4 0 white = four_strips"
    using SetPixel_forwards_to_strip [of four_strips 4 0 white] ge by simp
  ultimately show ?thesis by simp
qed


section \<open>What no call changes\<close>

lemma strip_setup_SetBrightnessScale [simp]:
  "strip_setup (LEDStrip_SetBrightnessScale x s) = strip_setup s"
  by (simp add: strip_setup_def LEDStrip_SetBrightnessScale_def)

lemma strip_setup_SetPixel8 [simp]:
  "strip_setup (LEDStrip_SetPixel8 p r g bl s) = strip_setup s"
  by (simp add: strip_setup_def LEDStrip_SetPixel8_def)

lemma map_update_same:
  assumes "f y = f (xs ! k)"
  shows "map f (xs[k := y]) = map f xs"
proof (cases "k < length xs")
  case True
  then show ?thesis using assms by (simp add: map_update list_update_same_conv)
next
  case False
  then show ?thesis by (simp add: list_update_beyond)
qed

lemma strip_setup_set_all_brightness:
  "map strip_setup (set_all_brightness scale strip n strips) = map strip_setup strips"
proof (induction scale strip n strips rule: set_all_brightness.induct)
  case (1 scale strip n strips)
  show ?case
  proof (cases "strip < n")
    case True
    with 1 show ?thesis
      by (subst set_all_brightness.simps) (simp add: map_update_same)
  next
    case False
    then show ?thesis by (subst set_all_brightness.simps) simp
  qed
qed

lemma construction_HandlePusherCommand:
  assumes "APA102_HandlePusherCommand b d buf sz = Inr (d', out)"
  shows "construction d' = construction d"
  using assms
  by (auto simp: APA102_HandlePusherCommand_def construction_def Let_def
        strip_setup_set_all_brightness map_update_same
      split: if_splits sum.splits)

lemma construction_SetPixel:
  "construction (APA102_SetPixel d strip pixel col) = construction d"
  by (simp add: APA102_SetPixel_def construction_def map_update_same)

lemma construction_FlushFrame:
  "construction (APA102_FlushFrame d) = construction d"
  by (simp add: APA102_FlushFrame_def construction_def MultiSPI_SendBuffers_def)

lemma construction_call:
  "APA102_call b d c = Inr (d', out) \<Longrightarrow> construction d' = construction d"
  by (cases c)
    (auto simp: construction_SetPixel construction_FlushFrame
      dest: construction_HandlePusherCommand)

lemma call_returns:
  "valid_call c \<Longrightarrow> \<exists>d' out. APA102_call b d c = Inr (d', out)"
  by (cases c) (simp_all add: HandlePusherCommand_in_bounds)

lemma run_returns:
  "list_all valid_call cs \<Longrightarrow> \<exists>d' out. APA102_run b d cs = Inr (d', out)"
proof (induction cs arbitrary: d)
  case Nil
  then show ?case by simp
next
  case (Cons c cs)
  from Cons.prems have "valid_call c" and rest: "list_all valid_call cs" by simp_all
  then obtain d1 out1 where c: "APA102_call b d c = Inr (d1, out1)"
    using call_returns by blast
  from Cons.IH [OF rest] obtain d2 out2 where "APA102_run b d1 cs = Inr (d2, out2)"
    by blast
  with c show ?case by simp
qed

lemma construction_run:
  "APA102_run b d cs = Inr (d', out) \<Longrightarrow> construction d' = construction d"
proof (induction cs arbitrary: d out)
  case Nil
  then show ?case by simp
next
  case (Cons c cs)
  from Cons.prems obtain d1 out1 out2 where c: "APA102_call b d c = Inr (d1, out1)"
    and r: "APA102_run b d1 cs = Inr (d', out2)"
    by (auto split: sum.splits prod.splits)
  from Cons.IH [OF r] construction_call [OF c] show ?case by simp
qed

lemma construction_well_formed:
  "construction d' = construction d \<Longrightarrow> well_formed d \<Longrightarrow> well_formed d'"
  by (auto simp: construction_def well_formed_def dest: map_eq_imp_length_eq)

lemma construction_shares_bus:
  assumes "construction d' = construction d" and "shares_bus d"
  shows "shares_bus d'"
proof -
  have "map strip_spi (strips_m d') = map (fst \<circ> snd) (map strip_setup (strips_m d'))"
    by (simp add: strip_setup_def)
  also have "\<dots> = map (fst \<circ> snd) (map strip_setup (strips_m d))"
    using assms(1) by (simp add: construction_def)
  also have "\<dots> = map strip_spi (strips_m d)"
    by (simp add: strip_setup_def)
  finally have m: "map strip_spi (strips_m d') = map strip_spi (strips_m d)" .
  have a: "spi_addr (spi_m d') = spi_addr (spi_m d)"
    using assms(1) by (simp add: construction_def)
  have "list_all (\<lambda>x. x = spi_addr (spi_m d)) (map strip_spi (strips_m d))"
    using assms(2) by (simp add: shares_bus_def list_all_iff)
  then have "list_all (\<lambda>x. x = spi_addr (spi_m d')) (map strip_spi (strips_m d'))"
    by (simp only: m a)
  then show ?thesis by (simp add: shares_bus_def list_all_iff)
qed

lemma set_create_strips:
  "s \<in> set (create_strips c a len strip n) \<Longrightarrow> strip_spi s = a \<and> chip s = c \<and> count s = len"
proof (induction c a len strip n rule: create_strips.induct)
  case (1 c a len strip n)
  show ?case
  proof (cases "strip < n")
    case True
    from 1(2) have "s = CreateStrip c a (strip + 1) len
        \<or> s \<in> set (create_strips c a len (strip + 1) n)"
      by (subst (asm) create_strips.simps) (simp add: True)
    then show ?thesis using 1(1) [OF True] by (auto simp: CreateStrip_def)
  next
    case False
    with 1(2) show ?thesis by (subst (asm) create_strips.simps) simp
  qed
qed

lemma SpixelsDevice_invariant:
  assumes "SpixelsDevice c mhz a n len = Inr d"
  shows "well_formed d \<and> shares_bus d \<and> spi_addr (spi_m d) = a
    \<and> num_strips_m d = n \<and> strip_len_m d = len \<and> clock_mhz (spi_m d) = mhz
    \<and> transmissions d = []"
proof -
  from assms have n: "0 \<le> sint n"
    and d: "d = \<lparr>num_strips_m = n, strip_len_m = len,
                strips_m = create_strips c a len 0 (sint n),
                spi_m = CreateDirectMultiSPI a mhz\<rparr>"
    by (auto simp: SpixelsDevice_def split: if_splits)
  show ?thesis
    using n set_create_strips [of _ c a len 0 "sint n"]
    by (auto simp: d well_formed_def shares_bus_def list_all_iff length_create_strips
        CreateDirectMultiSPI_def transmissions_def)
qed


text \<open>
  C10. After construction and any sequence of \<^verbatim>\<open>HandlePusherCommand\<close>, \<^verbatim>\<open>SetPixel\<close> and
  \<^verbatim>\<open>FlushFrame\<close> calls that keep the contract, the sequence has returned, the array of
  strip handles still has \<open>num_strips\<close> entries, every strip driver is on the one bus
  controller of the adapter, and \<^verbatim>\<open>num_strips()\<close> and \<^verbatim>\<open>num_pixel_per_strip()\<close>, which are
  functions of the adapter alone, return the arguments of the constructor.
\<close>

theorem adapter_invariant:
  assumes "APA102SpixelsDevice a n len = Inr d" and "list_all valid_call cs"
  shows "\<exists>d' out. APA102_run b d cs = Inr (d', out)
      \<and> 0 \<le> sint n
      \<and> length (strips_m d') = nat (sint n)
      \<and> int (length (strips_m d')) = sint (num_strips d')
      \<and> shares_bus d'
      \<and> spi_addr (spi_m d') = a
      \<and> num_strips d' = n
      \<and> num_pixel_per_strip d' = len"
proof -
  from assms(1) have i: "well_formed d" "shares_bus d" "spi_addr (spi_m d) = a"
    "num_strips_m d = n" "strip_len_m d = len"
    using SpixelsDevice_invariant [of APA102 kAPA102ClockMhz a n len d]
    by (simp_all add: APA102SpixelsDevice_def)
  from run_returns [OF assms(2)] obtain d' out where r: "APA102_run b d cs = Inr (d', out)"
    by blast
  have c: "construction d' = construction d"
    by (rule construction_run [OF r])
  have w: "well_formed d'" and s: "shares_bus d'"
    using construction_well_formed [OF c i(1)] construction_shares_bus [OF c i(2)] by simp_all
  have f: "num_strips_m d' = n" "strip_len_m d' = len" "spi_addr (spi_m d') = a"
    using c i(3,4,5) by (simp_all add: construction_def)
  show ?thesis
    using r w s f
    by (simp add: well_formed_def num_strips_def num_pixel_per_strip_def)
qed

text \<open>The adapter of four strips of ten pixels, after four calls.\<close>

theorem adapter_invariant_witness:
  "\<exists>d' out. APA102_run unsigned_build four_strips
       [HandlePusherCommand [2, 0xFF, 0xFF] 3, SetPixel 1 2 white, FlushFrame,
        HandlePusherCommand [5, 1, 0, 0] 4] = Inr (d', out)
     \<and> length (strips_m d') = 4 \<and> shares_bus d' \<and> num_strips d' = 4
     \<and> num_pixel_per_strip d' = 10"
proof -
  have "list_all valid_call
      [HandlePusherCommand [2, 0xFF, 0xFF] 3, SetPixel 1 2 white, FlushFrame,
       HandlePusherCommand [5, 1, 0, 0] 4]"
    by simp
  from adapter_invariant [OF APA102SpixelsDevice_four_strips this, of unsigned_build]
  obtain d' out where r: "APA102_run unsigned_build four_strips
       [HandlePusherCommand [2, 0xFF, 0xFF] 3, SetPixel 1 2 white, FlushFrame,
        HandlePusherCommand [5, 1, 0, 0] 4] = Inr (d', out)"
    and l: "length (strips_m d') = nat (sint (4 :: cint))"
    and s: "shares_bus d'" and n: "num_strips d' = 4" and p: "num_pixel_per_strip d' = 10"
    by (elim exE conjE)
  from l have "length (strips_m d') = 4" by simp
  with r s n p show ?thesis
    by (intro exI [of _ d'] exI [of _ out] conjI)
qed

section \<open>FlushFrame\<close>

lemma lanes_of_all: "shares_bus d \<Longrightarrow> lanes_of (spi_m d) (strips_m d) = strips_m d"
  by (simp add: shares_bus_def lanes_of_def list_all_iff)

lemma transmissions_FlushFrame:
  "shares_bus d \<Longrightarrow>
   transmissions (APA102_FlushFrame d) = transmissions d @ [map calls (strips_m d)]"
  by (simp add: transmissions_def APA102_FlushFrame_def MultiSPI_SendBuffers_def lanes_of_all)

lemma transmissions_FlushFrame_lanes:
  "transmissions (APA102_FlushFrame d) = transmissions d @ [map calls (lanes_of (spi_m d) (strips_m d))]"
  by (simp add: transmissions_def APA102_FlushFrame_def MultiSPI_SendBuffers_def)

lemma spi_SetPixel: "spi_m (APA102_SetPixel d strip pixel col) = spi_m d"
  by (simp add: APA102_SetPixel_def)

lemma spi_HandlePusherCommand:
  "APA102_HandlePusherCommand b d buf sz = Inr (d', out) \<Longrightarrow> spi_m d' = spi_m d"
  by (auto simp: APA102_HandlePusherCommand_def Let_def split: if_splits sum.splits)

lemma transmissions_call:
  assumes "APA102_call b d c = Inr (d', out)"
  shows "length (transmissions d') = length (transmissions d) + (if is_flush c then 1 else 0)
    \<and> take (length (transmissions d)) (transmissions d') = transmissions d"
proof (cases c)
  case (HandlePusherCommand buf sz)
  with assms have "spi_m d' = spi_m d"
    using spi_HandlePusherCommand by simp
  with HandlePusherCommand show ?thesis by (simp add: transmissions_def)
next
  case (SetPixel strip pixel col)
  with assms show ?thesis by (auto simp: transmissions_def spi_SetPixel)
next
  case FlushFrame
  with assms show ?thesis by (auto simp: transmissions_FlushFrame_lanes)
qed

lemma transmissions_run:
  "APA102_run b d cs = Inr (d', out) \<Longrightarrow>
   length (transmissions d') = length (transmissions d) + length (filter is_flush cs)
   \<and> take (length (transmissions d)) (transmissions d') = transmissions d"
proof (induction cs arbitrary: d out)
  case Nil
  then show ?case by simp
next
  case (Cons c cs)
  from Cons.prems obtain d1 out1 out2 where c: "APA102_call b d c = Inr (d1, out1)"
    and r: "APA102_run b d1 cs = Inr (d', out2)"
    by (auto split: sum.splits prod.splits)
  note s = transmissions_call [OF c] and t = Cons.IH [OF r]
  have le: "length (transmissions d) \<le> length (transmissions d1)"
    using s by simp
  have "take (length (transmissions d)) (transmissions d')
      = take (length (transmissions d)) (take (length (transmissions d1)) (transmissions d'))"
    using le by (simp add: min_absorb1)
  also have "\<dots> = transmissions d"
    using s t by simp
  finally show ?case using s t by simp
qed


lemma strip_in_range:
  "well_formed d \<Longrightarrow> strip < num_strips_m d \<Longrightarrow> unat strip < length (strips_m d)"
  using sint_nonneg_unat [of "num_strips_m d"]
  by (simp add: well_formed_def word_less_nat_alt)

lemma calls_SetPixel:
  assumes "well_formed d" and "strip < num_strips_m d"
  shows "map calls (strips_m (APA102_SetPixel d strip pixel col)) ! unat strip
    = calls (strips_m d ! unat strip) @ [SetPixel8 pixel (red col) (green col) (blue col)]"
  using strip_in_range [OF assms] assms(2)
  by (simp add: APA102_SetPixel_def LEDStrip_SetPixel8_def)

text \<open>
  C7. \<^verbatim>\<open>FlushFrame\<close> makes the bus controller's \<^verbatim>\<open>SendBuffers\<close> call, which transmits
  what the drivers of all strips have received so far; \<^verbatim>\<open>SetPixel\<close> and
  \<^verbatim>\<open>HandlePusherCommand\<close> make no such call. A pixel written by \<^verbatim>\<open>SetPixel\<close> is part
  of the transmission of the next \<^verbatim>\<open>FlushFrame\<close>. After a \<^verbatim>\<open>FlushFrame\<close>, whatever
  calls follow, its transmission and the earlier ones stay as they were, and one
  transmission is added per later \<^verbatim>\<open>FlushFrame\<close> and none otherwise.
\<close>

theorem FlushFrame_only_transmits:
  assumes "well_formed d" and "shares_bus d" and "list_all valid_call cs"
  shows "transmissions (APA102_FlushFrame d) = transmissions d @ [map calls (strips_m d)]
    \<and> transmissions (APA102_SetPixel d strip pixel col) = transmissions d
    \<and> (\<forall>d1 out1. APA102_HandlePusherCommand b d buf sz = Inr (d1, out1) \<longrightarrow>
          transmissions d1 = transmissions d)
    \<and> (strip < num_strips_m d \<longrightarrow>
          last (transmissions (APA102_FlushFrame (APA102_SetPixel d strip pixel col))) ! unat strip
            = calls (strips_m d ! unat strip) @ [SetPixel8 pixel (red col) (green col) (blue col)])
    \<and> (\<exists>d' out. APA102_run b (APA102_FlushFrame d) cs = Inr (d', out)
          \<and> take (Suc (length (transmissions d))) (transmissions d')
              = transmissions d @ [map calls (strips_m d)]
          \<and> length (transmissions d')
              = Suc (length (transmissions d)) + length (filter is_flush cs))"
proof (intro conjI allI impI)
  show f: "transmissions (APA102_FlushFrame d) = transmissions d @ [map calls (strips_m d)]"
    by (rule transmissions_FlushFrame [OF assms(2)])
  show "transmissions (APA102_SetPixel d strip pixel col) = transmissions d"
    by (simp add: transmissions_def spi_SetPixel)
  show "transmissions d1 = transmissions d"
    if "APA102_HandlePusherCommand b d buf sz = Inr (d1, out1)" for d1 out1
    using spi_HandlePusherCommand [OF that] by (simp add: transmissions_def)
  show "last (transmissions (APA102_FlushFrame (APA102_SetPixel d strip pixel col))) ! unat strip
      = calls (strips_m d ! unat strip) @ [SetPixel8 pixel (red col) (green col) (blue col)]"
    if "strip < num_strips_m d"
  proof -
    let ?d = "APA102_SetPixel d strip pixel col"
    have "shares_bus ?d"
      using construction_shares_bus [OF construction_SetPixel assms(2)] .
    then have "last (transmissions (APA102_FlushFrame ?d)) = map calls (strips_m ?d)"
      by (simp add: transmissions_FlushFrame)
    then show ?thesis
      using calls_SetPixel [OF assms(1) that] by simp
  qed
  from run_returns [OF assms(3)] obtain d' out
    where r: "APA102_run b (APA102_FlushFrame d) cs = Inr (d', out)"
    by blast
  from transmissions_run [OF r] f
  have "take (Suc (length (transmissions d))) (transmissions d')
        = transmissions d @ [map calls (strips_m d)]"
    and "length (transmissions d') = Suc (length (transmissions d)) + length (filter is_flush cs)"
    by simp_all
  with r show "\<exists>d' out. APA102_run b (APA102_FlushFrame d) cs = Inr (d', out)
      \<and> take (Suc (length (transmissions d))) (transmissions d')
          = transmissions d @ [map calls (strips_m d)]
      \<and> length (transmissions d')
          = Suc (length (transmissions d)) + length (filter is_flush cs)"
    by (intro exI [of _ d'] exI [of _ out] conjI)
qed

lemma shares_bus_four_strips: "shares_bus four_strips"
  by (simp add: shares_bus_def four_strips_def CreateStrip_def CreateDirectMultiSPI_def)

text \<open>
  On the adapter of four strips: a flush transmits four empty buffers, a pixel written
  before the flush is transmitted by it, and one written after it is not.
\<close>

theorem FlushFrame_only_transmits_witness:
  "transmissions (APA102_FlushFrame four_strips) = [[[], [], [], []]]
   \<and> last (transmissions (APA102_FlushFrame (APA102_SetPixel four_strips 2 3 white))) ! 2
       = [SetPixel8 3 255 255 255]
   \<and> (\<exists>d' out. APA102_run unsigned_build (APA102_FlushFrame four_strips)
          [SetPixel 2 3 white, HandlePusherCommand [2, 0xFF, 0xFF] 3] = Inr (d', out)
        \<and> transmissions d' = [[[], [], [], []]])"
proof -
  let ?cs = "[SetPixel 2 3 white, HandlePusherCommand [2, 0xFF, 0xFF] 3]"
  have v: "list_all valid_call ?cs"
    by simp
  note t = FlushFrame_only_transmits [OF well_formed_four_strips shares_bus_four_strips v,
      of 2 3 white unsigned_build "[]" 0]
  have t0: "transmissions four_strips = []" and c0: "map calls (strips_m four_strips) = [[], [], [], []]"
    by (simp_all add: transmissions_def four_strips_def CreateDirectMultiSPI_def CreateStrip_def)
  have lt: "(2 :: u32) < num_strips_m four_strips"
    by (simp add: four_strips_def)
  from t have a: "transmissions (APA102_FlushFrame four_strips) = [[[], [], [], []]]"
    unfolding t0 c0 by simp
  from t lt have b: "last (transmissions (APA102_FlushFrame (APA102_SetPixel four_strips 2 3 white))) ! 2
       = [SetPixel8 3 255 255 255]"
    by (simp add: four_strips_def CreateStrip_def white_def)
  from t obtain d' out
    where r: "APA102_run unsigned_build (APA102_FlushFrame four_strips) ?cs = Inr (d', out)"
      and k: "take (Suc (length (transmissions four_strips))) (transmissions d')
              = transmissions four_strips @ [map calls (strips_m four_strips)]"
      and l: "length (transmissions d')
              = Suc (length (transmissions four_strips)) + length (filter is_flush ?cs)"
    by (elim exE conjE)
  from l have "length (transmissions d') = 1" by (simp add: t0)
  with k have "transmissions d' = [[[], [], [], []]]"
    by (simp add: t0 c0)
  with r have "\<exists>d' out. APA102_run unsigned_build (APA102_FlushFrame four_strips) ?cs = Inr (d', out)
        \<and> transmissions d' = [[[], [], [], []]]"
    by (intro exI [of _ d'] exI [of _ out] conjI)
  with a b show ?thesis by (intro conjI)
qed


section \<open>The two variants\<close>

lemma to_LPD6803_simps [simp]:
  "strip_spi (to_LPD6803 s) = strip_spi s"
  "calls (to_LPD6803 s) = calls s"
  "to_LPD6803 (LEDStrip_SetPixel8 p r g bl s) = LEDStrip_SetPixel8 p r g bl (to_LPD6803 s)"
  "to_LPD6803 (CreateStrip c a conn len) = CreateStrip LPD6803 a conn len"
  by (simp_all add: to_LPD6803_def LEDStrip_SetPixel8_def CreateStrip_def)






lemma no_command_valid: "\<not> is_command c \<Longrightarrow> valid_call c"
  by (cases c) simp_all










end
